theory Spec2Isabelle
  imports Main "HOL-Library.Multiset" "HOL-Library.Word"
begin

section \<open>Data model\<close>

text \<open>
  The task board of \<^verbatim>\<open>server.js\<close> keeps one SQL table,
  \<^verbatim>\<open>tasks(id INTEGER PRIMARY KEY AUTOINCREMENT, title TEXT NOT NULL,
  status TEXT NOT NULL DEFAULT 'todo', created_at DATETIME DEFAULT CURRENT_TIMESTAMP)\<close>,
  and a publish/subscribe object. Both are ambient globals of the process; here they are
  the fields of one state record that every resolver takes and returns.

  A JavaScript string is a sequence of UTF-16 code units. \<open>js\<close> turns a literal of
  this theory into such a sequence.
\<close>

type_synonym js_string = "16 word list"

definition js :: "string \<Rightarrow> js_string" where
  "js cs = map (\<lambda>c. word_of_nat (of_char c)) cs"

text \<open>
  The binding hands a string to the engine as UTF-8 and reads \<^verbatim>\<open>TEXT\<close> back from
  UTF-8. A high surrogate followed by a low one is one code point and comes back as the
  same two code units; a surrogate without its partner has no UTF-8 form and comes back
  as U+FFFD. \<open>utf8_text\<close> is a string after that round trip, and \<open>isWellFormed\<close>
  (the language's \<^verbatim>\<open>String.prototype.isWellFormed\<close>) says that a string has no
  surrogate without its partner.
\<close>

definition is_high_surrogate :: "16 word \<Rightarrow> bool" where
  "is_high_surrogate c \<longleftrightarrow> 0xD800 \<le> c \<and> c \<le> 0xDBFF"

definition is_low_surrogate :: "16 word \<Rightarrow> bool" where
  "is_low_surrogate c \<longleftrightarrow> 0xDC00 \<le> c \<and> c \<le> 0xDFFF"

fun utf8_text :: "js_string \<Rightarrow> js_string" where
  "utf8_text [] = []"
| "utf8_text [c] = (if is_high_surrogate c \<or> is_low_surrogate c then [0xFFFD] else [c])"
| "utf8_text (c # d # cs) =
     (if is_high_surrogate c \<and> is_low_surrogate d then c # d # utf8_text cs
      else if is_high_surrogate c \<or> is_low_surrogate c then 0xFFFD # utf8_text (d # cs)
      else c # utf8_text (d # cs))"

fun isWellFormed :: "js_string \<Rightarrow> bool" where
  "isWellFormed [] = True"
| "isWellFormed [c] = (\<not> is_high_surrogate c \<and> \<not> is_low_surrogate c)"
| "isWellFormed (c # d # cs) =
     (if is_high_surrogate c \<and> is_low_surrogate d then isWellFormed cs
      else \<not> is_high_surrogate c \<and> \<not> is_low_surrogate c \<and> isWellFormed (d # cs))"

text \<open>
  A row of the table. \<open>task_id\<close> is the column \<^verbatim>\<open>id\<close> (a 64-bit signed rowid),
  \<open>created_at\<close> is the reading of the engine's clock at the insertion. The engine
  stores that reading as the text \<^verbatim>\<open>YYYY-MM-DD HH:MM:SS\<close>, whose order as text is
  the order of the seconds it denotes; the model keeps the number of seconds.
\<close>

record task =
  task_id :: int
  title :: js_string
  status :: js_string
  created_at :: int

text \<open>
  What \<^verbatim>\<open>pubsub.publish\<close> is called with: either \<^verbatim>\<open>{ taskUpdated: row }\<close>, where
  \<^verbatim>\<open>row\<close> is what \<^verbatim>\<open>db.get\<close> handed over (a row, or \<^verbatim>\<open>undefined\<close>), or
  \<^verbatim>\<open>{ taskUpdated: { id, deleted: true } }\<close>.
\<close>

datatype payload = TaskRow "task option" | Deleted int

text \<open>
  The state of the server process: the rows of the table in rowid order (the order of a
  table scan), the counter that \<^verbatim>\<open>AUTOINCREMENT\<close> keeps in \<^verbatim>\<open>sqlite_sequence\<close>
  (the largest rowid ever handed out), and the log of the calls of
  \<^verbatim>\<open>pubsub.publish\<close>, oldest first, each with its channel name.
\<close>

record server =
  rows :: "task list"
  seq :: int
  published :: "(string \<times> payload) list"

datatype db_error = SQLITE_FULL

definition TODO :: js_string where
  "TODO = js ''todo''"

definition IN_PROGRESS :: js_string where
  "IN_PROGRESS = js ''in_progress''"

definition DONE :: js_string where
  "DONE = js ''done''"

definition TASK_UPDATED :: string where
  "TASK_UPDATED = ''TASK_UPDATED''"

definition MAX_ROWID :: int where
  "MAX_ROWID = 9223372036854775807"

section \<open>The statements the resolvers run\<close>

text \<open>
  Each statement of \<^verbatim>\<open>server.js\<close> is one function on the state. A statement hands
  its callback either an error or a result, which is the sum in the result type.

  \<^verbatim>\<open>INSERT INTO tasks (title, status) VALUES (?, ?)\<close>: the new rowid is one more than
  the largest rowid the table has ever held; when that is already the largest 64-bit
  integer the statement fails and the table is as it was. The two bound strings are
  stored as UTF-8 text. \<^verbatim>\<open>created_at\<close> takes the clock's reading \<open>now\<close>. The
  callback's \<^verbatim>\<open>this.lastID\<close> is the new rowid; it is a JavaScript number, which
  holds every rowid below \<open>2 ^ 53\<close> exactly, and is taken here as the rowid itself.
\<close>

definition max_rowid :: "task list \<Rightarrow> int" where
  "max_rowid rs = foldr (\<lambda>r m. max (task_id r) m) rs 0"

definition db_run_insert ::
  "server \<Rightarrow> int \<Rightarrow> js_string \<Rightarrow> js_string \<Rightarrow> server \<times> (db_error + int)" where
  "db_run_insert s now t st =
     (let m = max (seq s) (max_rowid (rows s)) in
      if MAX_ROWID \<le> m then (s, Inl SQLITE_FULL)
      else
        (s\<lparr>rows := rows s @ [\<lparr>task_id = m + 1, title = utf8_text t,
                                 status = utf8_text st, created_at = now\<rparr>],
           seq := m + 1\<rparr>,
         Inr (m + 1)))"

text \<open>
  \<^verbatim>\<open>UPDATE tasks SET status = ? WHERE id = ?\<close>: \<open>update_row\<close> is what the statement
  does to one row, the bound string being stored as UTF-8 text, and the statement does
  it to every row of the table.
\<close>

definition update_row :: "js_string \<Rightarrow> int \<Rightarrow> task \<Rightarrow> task" where
  "update_row st i r = (if task_id r = i then r\<lparr>status := utf8_text st\<rparr> else r)"

definition db_run_update :: "server \<Rightarrow> js_string \<Rightarrow> int \<Rightarrow> server \<times> (db_error + unit)" where
  "db_run_update s st i = (s\<lparr>rows := map (update_row st i) (rows s)\<rparr>, Inr ())"

text \<open>\<^verbatim>\<open>DELETE FROM tasks WHERE id = ?\<close>; the counter of \<^verbatim>\<open>AUTOINCREMENT\<close> stays.\<close>

definition db_run_delete :: "server \<Rightarrow> int \<Rightarrow> server \<times> (db_error + unit)" where
  "db_run_delete s i = (s\<lparr>rows := filter (\<lambda>r. task_id r \<noteq> i) (rows s)\<rparr>, Inr ())"

text \<open>
  \<^verbatim>\<open>SELECT * FROM tasks WHERE id = ?\<close> through \<^verbatim>\<open>db.get\<close>: the first row that
  matches, \<^verbatim>\<open>undefined\<close> (here \<open>None\<close>) when none does.
\<close>

definition db_get :: "server \<Rightarrow> int \<Rightarrow> db_error + task option" where
  "db_get s i = Inr (find (\<lambda>r. task_id r = i) (rows s))"

text \<open>
  \<^verbatim>\<open>SELECT * FROM tasks ORDER BY created_at DESC\<close> through \<^verbatim>\<open>db.all\<close>: the table is
  scanned in rowid order and sorted on \<^verbatim>\<open>created_at\<close>, largest first. The statement
  names no second sort key, so SQL leaves the order of rows of equal \<^verbatim>\<open>created_at\<close>
  open; the engine, sorting the scan without an index, returns them in the order of the
  scan, which is what \<open>sort_key\<close> does.
\<close>

definition db_all :: "server \<Rightarrow> db_error + task list" where
  "db_all s = Inr (sort_key (\<lambda>r. - created_at r) (rows s))"

definition publish :: "server \<Rightarrow> string \<Rightarrow> payload \<Rightarrow> server" where
  "publish s channel p = s\<lparr>published := published s @ [(channel, p)]\<rparr>"

section \<open>Resolvers\<close>

text \<open>
  A resolver returns a promise; the model returns the state after it has settled and
  what it settled with: \<open>Inl err\<close> for \<^verbatim>\<open>reject(err)\<close>, \<open>Inr v\<close> for
  \<^verbatim>\<open>resolve(v)\<close>. The statements of one resolver run without another request in
  between. The argument \<^verbatim>\<open>id\<close> of the schema's type \<^verbatim>\<open>ID\<close> is taken as the integer
  the engine compares with the column \<^verbatim>\<open>id\<close>; an \<^verbatim>\<open>ID\<close> that denotes no integer
  matches no row, as an integer does that no row has.
\<close>

definition Query_tasks :: "server \<Rightarrow> db_error + task list" where
  "Query_tasks s = (case db_all s of Inl err \<Rightarrow> Inl err | Inr rws \<Rightarrow> Inr rws)"

definition Mutation_createTask ::
  "server \<Rightarrow> int \<Rightarrow> js_string \<Rightarrow> server \<times> (db_error + task option)" where
  "Mutation_createTask s now ttl =
     (case db_run_insert s now ttl TODO of
        (s1, Inl err) \<Rightarrow> (s1, Inl err)
      | (s1, Inr lastID) \<Rightarrow>
          (case db_get s1 lastID of
             Inl err \<Rightarrow> (s1, Inl err)
           | Inr row \<Rightarrow> (publish s1 TASK_UPDATED (TaskRow row), Inr row)))"

definition Mutation_updateTaskStatus ::
  "server \<Rightarrow> int \<Rightarrow> js_string \<Rightarrow> server \<times> (db_error + task option)" where
  "Mutation_updateTaskStatus s i st =
     (case db_run_update s st i of
        (s1, Inl err) \<Rightarrow> (s1, Inl err)
      | (s1, Inr _) \<Rightarrow>
          (case db_get s1 i of
             Inl err \<Rightarrow> (s1, Inl err)
           | Inr row \<Rightarrow> (publish s1 TASK_UPDATED (TaskRow row), Inr row)))"

definition Mutation_deleteTask :: "server \<Rightarrow> int \<Rightarrow> server \<times> (db_error + bool)" where
  "Mutation_deleteTask s i =
     (case db_run_delete s i of
        (s1, Inl err) \<Rightarrow> (s1, Inl err)
      | (s1, Inr _) \<Rightarrow> (publish s1 TASK_UPDATED (Deleted i), Inr True))"

text \<open>
  The start of the process: the table is created empty and three sample rows are
  inserted, each at its own reading of the clock. \<^verbatim>\<open>stmt.run\<close> is given no callback
  there, so a failure would pass unnoticed.
\<close>

definition empty_server :: server where
  "empty_server = \<lparr>rows = [], seq = 0, published = []\<rparr>"

definition init_db :: "int \<Rightarrow> int \<Rightarrow> int \<Rightarrow> server" where
  "init_db t1 t2 t3 =
     (let s1 = fst (db_run_insert empty_server t1 (js ''Design new landing page'') TODO);
          s2 = fst (db_run_insert s1 t2 (js ''Review pull requests'') IN_PROGRESS);
          s3 = fst (db_run_insert s2 t3 (js ''Deploy to production'') DONE)
      in s3)"

text \<open>
  The endpoint \<^verbatim>\<open>/graphql\<close> takes one operation of the schema per request and hands
  it to its resolver. \<open>execute\<close> is the state after one request that arrives when the
  engine's clock reads \<open>now\<close>; \<open>serve\<close> is the state after a list of requests,
  handled one after the other.
\<close>

datatype operation =
    Tasks
  | CreateTask js_string
  | UpdateTaskStatus int js_string
  | DeleteTask int

fun execute :: "server \<Rightarrow> int \<times> operation \<Rightarrow> server" where
  "execute s (now, Tasks) = s"
| "execute s (now, CreateTask ttl) = fst (Mutation_createTask s now ttl)"
| "execute s (now, UpdateTaskStatus i st) = fst (Mutation_updateTaskStatus s i st)"
| "execute s (now, DeleteTask i) = fst (Mutation_deleteTask s i)"

definition serve :: "server \<Rightarrow> (int \<times> operation) list \<Rightarrow> server" where
  "serve s reqs = foldl execute s reqs"

text \<open>
  What \<^verbatim>\<open>PRIMARY KEY AUTOINCREMENT\<close> maintains: no two rows share an id, and no id
  is above the counter.
\<close>

definition table_ok :: "server \<Rightarrow> bool" where
  "table_ok s \<longleftrightarrow>
     distinct (map task_id (rows s)) \<and> list_all (\<lambda>r. task_id r \<le> seq s) (rows s)"

text \<open>
  A run of \<^verbatim>\<open>createTask\<close> requests, given as the clock reading and the title of
  each.
\<close>

definition creates :: "(int \<times> js_string) list \<Rightarrow> (int \<times> operation) list" where
  "creates cs = map (\<lambda>(now, ttl). (now, CreateTask ttl)) cs"

section \<open>The page\<close>

text \<open>
  The script of the page. \<^verbatim>\<open>String.prototype.trim\<close> removes from both ends of a
  string the code units that the language counts as white space or as line
  terminators; \<open>StrWhiteSpaceChar\<close> is that set.
\<close>

definition StrWhiteSpaceChar :: "16 word \<Rightarrow> bool" where
  "StrWhiteSpaceChar c \<longleftrightarrow>
     c \<in> {0x0009, 0x000A, 0x000B, 0x000C, 0x000D, 0x0020, 0x00A0, 0x1680, 0x2028, 0x2029,
          0x202F, 0x205F, 0x3000, 0xFEFF}
     \<or> (0x2000 \<le> c \<and> c \<le> 0x200A)"

definition trim :: "js_string \<Rightarrow> js_string" where
  "trim v = rev (dropWhile StrWhiteSpaceChar (rev (dropWhile StrWhiteSpaceChar v)))"

text \<open>
  What the script reads and writes: the text of the input field \<^verbatim>\<open>taskInput\<close>, the
  variable \<^verbatim>\<open>tasks\<close>, and, to tell what has gone over the network, the operations
  posted to the endpoint so far, oldest first. \<^verbatim>\<open>renderTasks\<close> only writes the
  document from \<^verbatim>\<open>tasks\<close> and is left out.
\<close>

record browser =
  input_value :: js_string
  tasks :: "task list"
  sent :: "operation list"

text \<open>
  The \<^verbatim>\<open>data\<close> of the endpoint's reply. Every field of the schema is declared
  non-null, so a resolver that rejects, or that resolves a \<^verbatim>\<open>Task!\<close> with nothing,
  makes the reply carry \<^verbatim>\<open>data: null\<close>.
\<close>

datatype data = Data_tasks "task list" | Data_task task | Data_bool bool | Null

fun answer :: "server \<Rightarrow> int \<times> operation \<Rightarrow> data" where
  "answer s (now, Tasks) =
     (case Query_tasks s of Inl err \<Rightarrow> Null | Inr rws \<Rightarrow> Data_tasks rws)"
| "answer s (now, CreateTask ttl) =
     (case snd (Mutation_createTask s now ttl) of Inr (Some r) \<Rightarrow> Data_task r | _ \<Rightarrow> Null)"
| "answer s (now, UpdateTaskStatus i st) =
     (case snd (Mutation_updateTaskStatus s i st) of Inr (Some r) \<Rightarrow> Data_task r | _ \<Rightarrow> Null)"
| "answer s (now, DeleteTask i) =
     (case snd (Mutation_deleteTask s i) of Inl err \<Rightarrow> Null | Inr ok \<Rightarrow> Data_bool ok)"

text \<open>
  \<^verbatim>\<open>graphqlRequest\<close> posts one operation, which the server executes when its clock
  reads \<open>now\<close>, and returns the \<^verbatim>\<open>data\<close> of the reply.
\<close>

definition graphqlRequest ::
  "browser \<times> server \<Rightarrow> int \<Rightarrow> operation \<Rightarrow> (browser \<times> server) \<times> data" where
  "graphqlRequest w now opn =
     (case w of (b, s) \<Rightarrow>
        ((b\<lparr>sent := sent b @ [opn]\<rparr>, execute s (now, opn)), answer s (now, opn)))"

text \<open>
  \<^verbatim>\<open>loadTasks\<close> assigns \<^verbatim>\<open>data.tasks\<close> to \<^verbatim>\<open>tasks\<close>; on \<^verbatim>\<open>data: null\<close> the
  assignment throws and \<^verbatim>\<open>tasks\<close> stays.
\<close>

definition loadTasks :: "browser \<times> server \<Rightarrow> int \<Rightarrow> browser \<times> server" where
  "loadTasks w now =
     (case graphqlRequest w now Tasks of
        ((b, s), Data_tasks rws) \<Rightarrow> (b\<lparr>tasks := rws\<rparr>, s)
      | ((b, s), _) \<Rightarrow> (b, s))"

text \<open>
  \<^verbatim>\<open>addTask\<close>: \<^verbatim>\<open>if (!title) return;\<close> leaves exactly when the trimmed title is
  the empty string. Otherwise the mutation is posted, its reply is dropped, the input
  field is cleared and the list is loaded again. \<open>now\<close> and \<open>now'\<close> are the server's
  clock readings at the two requests.
\<close>

definition addTask :: "browser \<times> server \<Rightarrow> int \<Rightarrow> int \<Rightarrow> browser \<times> server" where
  "addTask w now now' =
     (case w of (b, s) \<Rightarrow>
        let ttl = trim (input_value b) in
        if ttl = [] then (b, s)
        else
          (case graphqlRequest (b, s) now (CreateTask ttl) of
             ((b1, s1), _) \<Rightarrow> loadTasks (b1\<lparr>input_value := []\<rparr>, s1) now'))"

section \<open>Facts about the statements\<close>

subsection \<open>Text as the table holds it\<close>

lemma isWellFormed_utf8_text: "isWellFormed t \<Longrightarrow> utf8_text t = t"
  by (induction t rule: utf8_text.induct) (auto split: if_splits)

lemma no_surrogate_utf8_text:
  "\<forall>c \<in> set t. \<not> is_high_surrogate c \<and> \<not> is_low_surrogate c \<Longrightarrow> utf8_text t = t"
  by (induction t rule: utf8_text.induct) auto

lemma char_no_surrogate:
  "\<not> is_high_surrogate (word_of_nat (of_char c)) \<and> \<not> is_low_surrogate (word_of_nat (of_char c))"
proof -
  have lt: "(of_char c :: nat) < 256" by (cases c) simp
  then have "(of_char c :: nat) < 65536" by linarith
  then have m: "(of_char c :: nat) mod 65536 = of_char c" by (rule mod_less)
  have "unat (word_of_nat (of_char c) :: 16 word) = of_char c mod 65536"
    by (simp add: unat_of_nat)
  with m lt have "unat (word_of_nat (of_char c) :: 16 word) < 256" by linarith
  then show ?thesis
    by (simp add: is_high_surrogate_def is_low_surrogate_def word_le_nat_alt)
qed

lemma utf8_text_js [simp]: "utf8_text (js cs) = js cs"
  by (rule no_surrogate_utf8_text) (auto simp: js_def char_no_surrogate)

lemma utf8_text_status [simp]:
  "utf8_text TODO = TODO" "utf8_text IN_PROGRESS = IN_PROGRESS" "utf8_text DONE = DONE"
  by (simp_all add: TODO_def IN_PROGRESS_def DONE_def)

subsection \<open>One statement, one resolver\<close>

lemma max_rowid_ge: "r \<in> set rs \<Longrightarrow> task_id r \<le> max_rowid rs"
  by (induction rs) (auto simp: max_rowid_def)

lemma find_fresh_snoc:
  "\<forall>r \<in> set rs. task_id r \<noteq> task_id x \<Longrightarrow> find (\<lambda>r. task_id r = task_id x) (rs @ [x]) = Some x"
  by (induction rs) auto

lemma createTask_ok:
  fixes s :: server and now :: int and ttl :: js_string
  assumes "max (seq s) (max_rowid (rows s)) < MAX_ROWID"
  defines "r \<equiv> \<lparr>task_id = max (seq s) (max_rowid (rows s)) + 1, title = utf8_text ttl,
                 status = TODO, created_at = now\<rparr>"
  shows "Mutation_createTask s now ttl =
           (s\<lparr>rows := rows s @ [r], seq := task_id r,
              published := published s @ [(TASK_UPDATED, TaskRow (Some r))]\<rparr>, Inr (Some r))"
proof -
  have fresh: "\<forall>x \<in> set (rows s). task_id x \<noteq> task_id r"
  proof
    fix x assume "x \<in> set (rows s)"
    then have "task_id x \<le> max_rowid (rows s)" by (rule max_rowid_ge)
    then show "task_id x \<noteq> task_id r" by (simp add: r_def)
  qed
  have "find (\<lambda>x. task_id x = task_id r) (rows s @ [r]) = Some r"
    using fresh by (rule find_fresh_snoc)
  moreover have "\<not> MAX_ROWID \<le> max (seq s) (max_rowid (rows s))"
    using assms(1) by linarith
  ultimately show ?thesis
    by (simp add: Mutation_createTask_def db_run_insert_def db_get_def publish_def Let_def r_def)
qed

lemma createTask_full:
  "MAX_ROWID \<le> max (seq s) (max_rowid (rows s)) \<Longrightarrow>
   Mutation_createTask s now ttl = (s, Inl SQLITE_FULL)"
  by (simp add: Mutation_createTask_def db_run_insert_def Let_def)

lemma updateTaskStatus_eq:
  "Mutation_updateTaskStatus s i st =
     (let rs = map (update_row st i) (rows s);
          row = find (\<lambda>r. task_id r = i) rs
      in (s\<lparr>rows := rs, published := published s @ [(TASK_UPDATED, TaskRow row)]\<rparr>, Inr row))"
  by (simp add: Mutation_updateTaskStatus_def db_run_update_def db_get_def publish_def Let_def)

lemma deleteTask_eq:
  "Mutation_deleteTask s i =
     (s\<lparr>rows := filter (\<lambda>r. task_id r \<noteq> i) (rows s),
        published := published s @ [(TASK_UPDATED, Deleted i)]\<rparr>, Inr True)"
  by (simp add: Mutation_deleteTask_def db_run_delete_def publish_def)

lemma Query_tasks_eq: "Query_tasks s = Inr (sort_key (\<lambda>r. - created_at r) (rows s))"
  by (simp add: Query_tasks_def db_all_def)

lemma map_update_absent: "i \<notin> task_id ` set rs \<Longrightarrow> map (update_row st i) rs = rs"
  by (induction rs) (auto simp: update_row_def)

lemma update_row_fields:
  "task_id (update_row st i r) = task_id r"
  "title (update_row st i r) = title r"
  "created_at (update_row st i r) = created_at r"
  by (simp_all add: update_row_def)

lemma find_absent: "i \<notin> task_id ` set rs \<Longrightarrow> find (\<lambda>r. task_id r = i) rs = None"
  by (induction rs) auto

lemma find_after_update:
  "find (\<lambda>r. task_id r = i) (map (update_row st i) rs) =
   map_option (\<lambda>r. r\<lparr>status := utf8_text st\<rparr>) (find (\<lambda>r. task_id r = i) rs)"
  by (induction rs) (auto simp: update_row_def)

lemma find_present:
  "i \<in> task_id ` set rs \<Longrightarrow> \<exists>r \<in> set rs. task_id r = i \<and> find (\<lambda>r. task_id r = i) rs = Some r"
  by (induction rs) auto




lemma init_db_eq:
  "init_db t1 t2 t3 =
     \<lparr>rows = [\<lparr>task_id = 1, title = js ''Design new landing page'', status = TODO,
                created_at = t1\<rparr>,
              \<lparr>task_id = 2, title = js ''Review pull requests'', status = IN_PROGRESS,
                created_at = t2\<rparr>,
              \<lparr>task_id = 3, title = js ''Deploy to production'', status = DONE,
                created_at = t3\<rparr>],
      seq = 3, published = []\<rparr>"
  by (simp add: init_db_def db_run_insert_def empty_server_def max_rowid_def MAX_ROWID_def
      Let_def)

subsection \<open>The table across requests\<close>

lemma create_cases:
  obtains (full) "MAX_ROWID \<le> max (seq s) (max_rowid (rows s))"
      "Mutation_createTask s now ttl = (s, Inl SQLITE_FULL)"
  | (ok) r where "max (seq s) (max_rowid (rows s)) < MAX_ROWID"
      "task_id r = max (seq s) (max_rowid (rows s)) + 1"
      "title r = utf8_text ttl" "status r = TODO" "created_at r = now"
      "Mutation_createTask s now ttl =
         (s\<lparr>rows := rows s @ [r], seq := task_id r,
            published := published s @ [(TASK_UPDATED, TaskRow (Some r))]\<rparr>, Inr (Some r))"
proof (cases "MAX_ROWID \<le> max (seq s) (max_rowid (rows s))")
  case True
  then show ?thesis using createTask_full [OF True] full by blast
next
  case False
  then have lt: "max (seq s) (max_rowid (rows s)) < MAX_ROWID" by linarith
  let ?r = "\<lparr>task_id = max (seq s) (max_rowid (rows s)) + 1, title = utf8_text ttl,
              status = TODO, created_at = now\<rparr>"
  have "Mutation_createTask s now ttl =
      (s\<lparr>rows := rows s @ [?r], seq := task_id ?r,
         published := published s @ [(TASK_UPDATED, TaskRow (Some ?r))]\<rparr>, Inr (Some ?r))"
    using createTask_ok [OF lt, of now ttl] by simp
  then show ?thesis
    using lt by (intro ok [of ?r]) simp_all
qed

lemma table_ok_init: "table_ok (init_db t1 t2 t3)"
  by (simp add: table_ok_def init_db_eq)

lemma table_ok_create: "table_ok s \<Longrightarrow> table_ok (fst (Mutation_createTask s now ttl))"
proof (cases rule: create_cases [where s = s and now = now and ttl = ttl])
  case full
  assume "table_ok s"
  then show ?thesis by (simp add: full)
next
  case (ok r)
  assume a: "table_ok s"
  have below: "task_id x < task_id r" if "x \<in> set (rows s)" for x
    using max_rowid_ge [OF that] ok(2) by simp
  have "task_id r \<notin> task_id ` set (rows s)"
  proof
    assume "task_id r \<in> task_id ` set (rows s)"
    then obtain x where "x \<in> set (rows s)" "task_id x = task_id r" by auto
    with below [of x] show False by simp
  qed
  moreover have "list_all (\<lambda>x. task_id x \<le> task_id r) (rows s)"
    using a ok(2) by (auto simp: table_ok_def list_all_iff)
  ultimately show ?thesis
    using a by (simp add: ok(6) table_ok_def)
qed

lemma map_id_update: "map task_id (map (update_row st i) rs) = map task_id rs"
  by (induction rs) (simp_all add: update_row_fields)

lemma table_ok_update: "table_ok s \<Longrightarrow> table_ok (fst (Mutation_updateTaskStatus s i st))"
  by (simp add: table_ok_def updateTaskStatus_eq Let_def map_id_update[simplified] list_all_iff
      update_row_fields comp_def)

lemma table_ok_delete: "table_ok s \<Longrightarrow> table_ok (fst (Mutation_deleteTask s i))"
  by (simp add: table_ok_def deleteTask_eq distinct_map_filter list_all_iff)

lemma table_ok_execute: "table_ok s \<Longrightarrow> table_ok (execute s rq)"
  by (cases "(s, rq)" rule: execute.cases)
    (simp_all add: table_ok_create table_ok_update table_ok_delete)

lemma table_ok_serve: "table_ok s \<Longrightarrow> table_ok (serve s reqs)"
  unfolding serve_def
  by (induction reqs arbitrary: s) (simp_all add: table_ok_execute)

lemma seq_create: "seq s \<le> seq (fst (Mutation_createTask s now ttl))"
  by (cases rule: create_cases [where s = s and now = now and ttl = ttl]) simp_all

lemma seq_execute: "seq s \<le> seq (execute s rq)"
  by (cases "(s, rq)" rule: execute.cases)
    (simp_all add: seq_create updateTaskStatus_eq deleteTask_eq Let_def)

lemma seq_serve: "seq s \<le> seq (serve s reqs)"
  unfolding serve_def
proof (induction reqs arbitrary: s)
  case Nil
  show ?case by simp
next
  case (Cons rq reqs)
  have "seq s \<le> seq (execute s rq)" by (rule seq_execute)
  also have "\<dots> \<le> seq (foldl execute (execute s rq) reqs)" by (rule Cons.IH)
  finally show ?case by simp
qed

lemma created_id_above_seq:
  "Mutation_createTask s now ttl = (s', Inr (Some r)) \<Longrightarrow> seq s < task_id r"
  by (cases rule: create_cases [where s = s and now = now and ttl = ttl]) auto

subsection \<open>Runs of creations and the sorted list\<close>

lemma max_rowid_snoc: "max_rowid (rs @ [r]) = max (max_rowid rs) (task_id r)"
  by (induction rs) (simp_all add: max_rowid_def)

lemma insort_key_last:
  "\<forall>y \<in> set ys. f y < f x \<Longrightarrow> insort_key f x ys = ys @ [x]"
  by (induction ys) auto

lemma sort_key_decreasing:
  "sorted_wrt (\<lambda>a b. f b < f a) xs \<Longrightarrow> sort_key f xs = rev xs"
  by (induction xs) (simp_all add: insort_key_last)

lemma serve_Cons: "serve s (rq # reqs) = serve (execute s rq) reqs"
  by (simp add: serve_def)

lemma serve_creates:
  "max (seq s) (max_rowid (rows s)) + int (length cs) \<le> MAX_ROWID \<Longrightarrow>
   \<exists>created. rows (serve s (creates cs)) = rows s @ created
     \<and> map title created = map (\<lambda>c. utf8_text (snd c)) cs
     \<and> map created_at created = map fst cs
     \<and> list_all (\<lambda>r. status r = TODO \<and> max_rowid (rows s) < task_id r) created"
proof (induction cs arbitrary: s)
  case Nil
  then show ?case by (simp add: serve_def creates_def)
next
  case (Cons c cs)
  obtain now ttl where c: "c = (now, ttl)" by (cases c)
  define m where "m = max (seq s) (max_rowid (rows s))"
  from Cons.prems have bound: "m + 1 + int (length cs) \<le> MAX_ROWID"
    by (simp add: m_def)
  then have "m < MAX_ROWID" by linarith
  then have lt: "max (seq s) (max_rowid (rows s)) < MAX_ROWID"
    unfolding m_def .
  define r where "r = \<lparr>task_id = m + 1, title = utf8_text ttl, status = TODO,
                       created_at = now\<rparr>"
  define s1 where "s1 = fst (Mutation_createTask s now ttl)"
  have s1: "rows s1 = rows s @ [r]" "seq s1 = m + 1"
    using createTask_ok [OF lt, of now ttl] by (simp_all add: s1_def r_def m_def)
  have m_ge: "max_rowid (rows s) \<le> m" "seq s \<le> m"
    by (simp_all add: m_def)
  have m1: "max (seq s1) (max_rowid (rows s1)) = m + 1"
    using m_ge by (simp add: s1 max_rowid_snoc r_def)
  with bound have "max (seq s1) (max_rowid (rows s1)) + int (length cs) \<le> MAX_ROWID"
    by simp
  from Cons.IH [OF this] obtain created where
    cr: "rows (serve s1 (creates cs)) = rows s1 @ created"
      "map title created = map (\<lambda>c. utf8_text (snd c)) cs"
      "map created_at created = map fst cs"
      "list_all (\<lambda>r. status r = TODO \<and> max_rowid (rows s1) < task_id r) created"
    by blast
  have step: "serve s (creates (c # cs)) = serve s1 (creates cs)"
    by (simp add: creates_def serve_Cons c s1_def)
  have "max_rowid (rows s) \<le> max_rowid (rows s1)"
    by (simp add: s1 max_rowid_snoc)
  with cr(4) have "list_all (\<lambda>r. status r = TODO \<and> max_rowid (rows s) < task_id r) created"
    by (auto simp: list_all_iff)
  moreover have "status r = TODO \<and> max_rowid (rows s) < task_id r"
    using m_ge by (simp add: r_def)
  ultimately have "list_all (\<lambda>r. status r = TODO \<and> max_rowid (rows s) < task_id r) (r # created)"
    by simp
  moreover have "rows (serve s (creates (c # cs))) = rows s @ (r # created)"
    by (simp add: step cr(1) s1)
  moreover have "map title (r # created) = map (\<lambda>c. utf8_text (snd c)) (c # cs)"
    "map created_at (r # created) = map fst (c # cs)"
    by (simp_all add: cr c r_def)
  ultimately show ?case by blast
qed

subsection \<open>Trimming and the page\<close>

lemma last_dropWhile_nonempty: "dropWhile P xs \<noteq> [] \<Longrightarrow> last (dropWhile P xs) = last xs"
  by (induction xs) (auto split: if_splits)

lemma trim_splits:
  "\<exists>pre post. v = pre @ trim v @ post \<and> list_all StrWhiteSpaceChar pre \<and> list_all StrWhiteSpaceChar post"
proof -
  let ?P = StrWhiteSpaceChar
  define d where "d = dropWhile ?P v"
  have v: "v = takeWhile ?P v @ d" by (simp add: d_def)
  have "rev (dropWhile ?P (rev d)) @ rev (takeWhile ?P (rev d))
      = rev (takeWhile ?P (rev d) @ dropWhile ?P (rev d))"
    by (simp only: rev_append)
  also have "\<dots> = d"
    by (simp only: takeWhile_dropWhile_id rev_rev_ident)
  finally have d: "d = trim v @ rev (takeWhile ?P (rev d))"
    by (simp only: trim_def d_def)
  have "list_all ?P (takeWhile ?P v)" "list_all ?P (rev (takeWhile ?P (rev d)))"
    by (auto simp: list_all_iff dest: set_takeWhileD)
  moreover have "v = takeWhile ?P v @ trim v @ rev (takeWhile ?P (rev d))"
    using v d by simp
  ultimately show ?thesis by blast
qed

lemma trim_ends:
  assumes "trim v \<noteq> []"
  shows "\<not> StrWhiteSpaceChar (hd (trim v))" "\<not> StrWhiteSpaceChar (last (trim v))"
proof -
  let ?P = StrWhiteSpaceChar
  define d where "d = dropWhile ?P v"
  define e where "e = dropWhile ?P (rev d)"
  have t: "trim v = rev e" by (simp add: trim_def d_def e_def)
  with assms have e: "e \<noteq> []" by simp
  then have "rev d \<noteq> []" by (auto simp: e_def)
  then have dne: "d \<noteq> []" by simp
  have "last (trim v) = hd e" using e by (simp add: t last_rev)
  moreover have "\<not> ?P (hd e)" using e unfolding e_def by (rule hd_dropWhile)
  ultimately show "\<not> ?P (last (trim v))" by simp
  have "hd (trim v) = last e" using e by (simp add: t hd_rev)
  also have "\<dots> = last (rev d)" using e unfolding e_def by (rule last_dropWhile_nonempty)
  also have "\<dots> = hd d" using dne by (simp add: last_rev)
  finally have "hd (trim v) = hd d" .
  moreover have "\<not> ?P (hd d)" using dne unfolding d_def by (rule hd_dropWhile)
  ultimately show "\<not> ?P (hd (trim v))" by simp
qed


lemma loadTasks_eq:
  "loadTasks (b, s) now =
     (b\<lparr>tasks := sort_key (\<lambda>r. - created_at r) (rows s), sent := sent b @ [Tasks]\<rparr>, s)"
  by (simp add: loadTasks_def graphqlRequest_def Query_tasks_eq)

lemma addTask_eq:
  "addTask (b, s) now now' =
     (if trim (input_value b) = [] then (b, s)
      else
        (b\<lparr>input_value := [],
           tasks := sort_key (\<lambda>r. - created_at r)
                      (rows (fst (Mutation_createTask s now (trim (input_value b))))),
           sent := sent b @ [CreateTask (trim (input_value b)), Tasks]\<rparr>,
         fst (Mutation_createTask s now (trim (input_value b)))))"
  by (simp add: addTask_def Let_def graphqlRequest_def loadTasks_eq)

section \<open>Creating a task\<close>

text \<open>
  Claim C2, as the code has it. For every title, \<^verbatim>\<open>createTask\<close> on a table that has
  a rowid left appends exactly one row to the table, with an id that no row had, with
  the status \<^verbatim>\<open>'todo'\<close>, and with the title as UTF-8 text holds it: the title
  itself when it is well formed, the title with U+FFFD in the place of every surrogate
  without its partner otherwise. It resolves with that very row, which is also what
  fetching its id from the table afterwards gives. The status does not depend on the
  title.
\<close>

theorem createTask_inserts_todo_row:
  assumes "max (seq s) (max_rowid (rows s)) < MAX_ROWID"
  shows "\<exists>s' r. Mutation_createTask s now ttl = (s', Inr (Some r))
           \<and> rows s' = rows s @ [r]
           \<and> title r = utf8_text ttl \<and> (isWellFormed ttl \<longrightarrow> title r = ttl)
           \<and> status r = js ''todo'' \<and> created_at r = now
           \<and> (\<forall>x \<in> set (rows s). task_id x \<noteq> task_id r)
           \<and> db_get s' (task_id r) = Inr (Some r)"
proof -
  define r where "r = \<lparr>task_id = max (seq s) (max_rowid (rows s)) + 1, title = utf8_text ttl,
                       status = TODO, created_at = now\<rparr>"
  define s' where "s' = s\<lparr>rows := rows s @ [r], seq := task_id r,
                          published := published s @ [(TASK_UPDATED, TaskRow (Some r))]\<rparr>"
  have run: "Mutation_createTask s now ttl = (s', Inr (Some r))"
    unfolding s'_def r_def using assms by (rule createTask_ok)
  have fresh: "\<forall>x \<in> set (rows s). task_id x \<noteq> task_id r"
  proof
    fix x assume "x \<in> set (rows s)"
    then have "task_id x \<le> max_rowid (rows s)" by (rule max_rowid_ge)
    then show "task_id x \<noteq> task_id r" by (simp add: r_def)
  qed
  have get: "db_get s' (task_id r) = Inr (Some r)"
    using find_fresh_snoc [OF fresh] by (simp add: db_get_def s'_def)
  have "rows s' = rows s @ [r]" by (simp add: s'_def)
  moreover have "title r = utf8_text ttl \<and> status r = js ''todo'' \<and> created_at r = now"
    by (simp add: r_def TODO_def)
  moreover have "isWellFormed ttl \<longrightarrow> title r = ttl"
    by (simp add: r_def isWellFormed_utf8_text)
  ultimately show ?thesis using run fresh get by blast
qed

theorem createTask_inserts_todo_row_witness:
  "max (seq (init_db 5 5 6)) (max_rowid (rows (init_db 5 5 6))) < MAX_ROWID
   \<and> isWellFormed (js ''done'')
   \<and> (\<exists>s' r. Mutation_createTask (init_db 5 5 6) 7 (js ''done'') = (s', Inr (Some r))
           \<and> rows s' = rows (init_db 5 5 6) @ [r]
           \<and> title r = js ''done'' \<and> status r = js ''todo'' \<and> created_at r = 7
           \<and> (\<forall>x \<in> set (rows (init_db 5 5 6)). task_id x \<noteq> task_id r)
           \<and> db_get s' (task_id r) = Inr (Some r))"
proof -
  have h: "max (seq (init_db 5 5 6)) (max_rowid (rows (init_db 5 5 6))) < MAX_ROWID"
    by (simp add: init_db_eq max_rowid_def MAX_ROWID_def)
  have w: "isWellFormed (js ''done'')"
    by (simp add: js_def is_high_surrogate_def is_low_surrogate_def)
  from createTask_inserts_todo_row [OF h, of 7 "js ''done''"] obtain s' r where
    a: "Mutation_createTask (init_db 5 5 6) 7 (js ''done'') = (s', Inr (Some r))"
       "rows s' = rows (init_db 5 5 6) @ [r]"
       "isWellFormed (js ''done'') \<longrightarrow> title r = js ''done''"
       "status r = js ''todo''" "created_at r = 7"
       "\<forall>x \<in> set (rows (init_db 5 5 6)). task_id x \<noteq> task_id r"
       "db_get s' (task_id r) = Inr (Some r)"
    by (elim exE conjE)
  from a(3) w have "title r = js ''done''" by (rule mp)
  with a(1,2,4-7) have "\<exists>s' r. Mutation_createTask (init_db 5 5 6) 7 (js ''done'') = (s', Inr (Some r))
           \<and> rows s' = rows (init_db 5 5 6) @ [r]
           \<and> title r = js ''done'' \<and> status r = js ''todo'' \<and> created_at r = 7
           \<and> (\<forall>x \<in> set (rows (init_db 5 5 6)). task_id x \<noteq> task_id r)
           \<and> db_get s' (task_id r) = Inr (Some r)"
    by (intro exI [of _ s'] exI [of _ r] conjI)
  with h w show ?thesis by (intro conjI)
qed

text \<open>
  A title that is one high surrogate alone is accepted by the endpoint; the row that
  \<^verbatim>\<open>createTask\<close> stores and resolves with has the title U+FFFD, which is not the
  input.
\<close>

theorem createTask_unpaired_surrogate:
  "snd (Mutation_createTask (init_db 0 0 0) 5 [0xD800]) =
     Inr (Some \<lparr>task_id = 4, title = [0xFFFD], status = js ''todo'', created_at = 5\<rparr>)"
  by (simp add: init_db_eq Mutation_createTask_def db_run_insert_def db_get_def publish_def
      max_rowid_def MAX_ROWID_def Let_def TODO_def is_high_surrogate_def is_low_surrogate_def)

section \<open>Changing a status\<close>

text \<open>
  Claim C3. When no row has the id, \<^verbatim>\<open>updateTaskStatus\<close> resolves (it does not
  reject) with what \<^verbatim>\<open>db.get\<close> found, which is nothing, whatever the status; the table
  and its rowid counter are as before, and the only change of the state is the
  notification published with that empty result.
\<close>

theorem updateTaskStatus_unknown_id:
  assumes "i \<notin> task_id ` set (rows s)"
  shows "Mutation_updateTaskStatus s i st =
           (s\<lparr>published := published s @ [(TASK_UPDATED, TaskRow None)]\<rparr>, Inr None)
         \<and> rows (fst (Mutation_updateTaskStatus s i st)) = rows s
         \<and> seq (fst (Mutation_updateTaskStatus s i st)) = seq s"
  using assms
  by (simp add: updateTaskStatus_eq Let_def map_update_absent find_absent)

theorem updateTaskStatus_unknown_id_witness:
  "42 \<notin> task_id ` set (rows (init_db 5 5 6))
   \<and> Mutation_updateTaskStatus (init_db 5 5 6) 42 (js ''done'') =
       ((init_db 5 5 6)\<lparr>published := published (init_db 5 5 6) @ [(TASK_UPDATED, TaskRow None)]\<rparr>,
        Inr None)
   \<and> rows (fst (Mutation_updateTaskStatus (init_db 5 5 6) 42 (js ''done''))) = rows (init_db 5 5 6)"
proof -
  have h: "42 \<notin> task_id ` set (rows (init_db 5 5 6))"
    by (simp add: init_db_def db_run_insert_def empty_server_def max_rowid_def MAX_ROWID_def
        Let_def)
  from updateTaskStatus_unknown_id [OF h, of "js ''done''"] h show ?thesis by blast
qed



text \<open>
  Claim C8, as the code has it. The table puts no constraint on the status: for every
  string (the empty one and those outside \<^verbatim>\<open>todo\<close>, \<^verbatim>\<open>in_progress\<close>, \<^verbatim>\<open>done\<close> as
  well) and every id that a row has, \<^verbatim>\<open>updateTaskStatus\<close> resolves with a row of that
  id whose status is the string as UTF-8 text holds it, and the list that \<^verbatim>\<open>tasks\<close>
  returns afterwards holds a row of that id, and every row of that id in it has that
  status. For a well-formed string that status is the string as given; otherwise it is
  the string with U+FFFD in the place of every surrogate without its partner.
\<close>

theorem updateTaskStatus_stores_any_status:
  assumes "i \<in> task_id ` set (rows s)"
  shows "\<exists>s' r after. Mutation_updateTaskStatus s i st = (s', Inr (Some r))
           \<and> task_id r = i \<and> status r = utf8_text st
           \<and> Query_tasks s' = Inr after
           \<and> (\<exists>x \<in> set after. task_id x = i)
           \<and> (\<forall>x \<in> set after. task_id x = i \<longrightarrow> status x = utf8_text st)
           \<and> (isWellFormed st \<longrightarrow> utf8_text st = st)"
proof -
  from find_present [OF assms] obtain r0 where
    r0: "task_id r0 = i" "find (\<lambda>r. task_id r = i) (rows s) = Some r0"
    by blast
  define s' where "s' = fst (Mutation_updateTaskStatus s i st)"
  have run: "Mutation_updateTaskStatus s i st = (s', Inr (Some (r0\<lparr>status := utf8_text st\<rparr>)))"
    by (simp add: s'_def updateTaskStatus_eq Let_def find_after_update r0)
  have rows': "rows s' = map (update_row st i) (rows s)"
    by (simp add: s'_def updateTaskStatus_eq Let_def)
  have q: "Query_tasks s' = Inr (sort_key (\<lambda>r. - created_at r) (rows s'))"
    by (rule Query_tasks_eq)
  have ex: "\<exists>x \<in> set (sort_key (\<lambda>r. - created_at r) (rows s')). task_id x = i"
  proof -
    from assms obtain y where y: "y \<in> set (rows s)" "task_id y = i" by auto
    then have "update_row st i y \<in> set (rows s')" by (simp add: rows')
    moreover have "task_id (update_row st i y) = i" using y by (simp add: update_row_fields)
    ultimately show ?thesis by (simp only: set_sort) (rule bexI)
  qed
  have all: "\<forall>x \<in> set (sort_key (\<lambda>r. - created_at r) (rows s')).
               task_id x = i \<longrightarrow> status x = utf8_text st"
  proof (intro ballI impI)
    fix x assume "x \<in> set (sort_key (\<lambda>r. - created_at r) (rows s'))" and xi: "task_id x = i"
    then have "x \<in> update_row st i ` set (rows s)" by (simp add: rows')
    then obtain y where y: "x = update_row st i y" by blast
    with xi have "task_id y = i" by (simp add: update_row_fields)
    then show "status x = utf8_text st" by (simp add: y update_row_def)
  qed
  have r: "task_id (r0\<lparr>status := utf8_text st\<rparr>) = i"
    "status (r0\<lparr>status := utf8_text st\<rparr>) = utf8_text st"
    using r0 by simp_all
  have wf: "isWellFormed st \<longrightarrow> utf8_text st = st"
    by (simp add: isWellFormed_utf8_text)
  from run r q ex all wf show ?thesis
    by (intro exI [of _ s'] exI [of _ "r0\<lparr>status := utf8_text st\<rparr>"]
        exI [of _ "sort_key (\<lambda>r. - created_at r) (rows s')"] conjI)
qed

theorem updateTaskStatus_stores_any_status_witness:
  "3 \<in> task_id ` set (rows (init_db 5 5 6))
   \<and> isWellFormed (js ''blocked'')
   \<and> (\<exists>s' r after. Mutation_updateTaskStatus (init_db 5 5 6) 3 (js ''blocked'')
                       = (s', Inr (Some r))
           \<and> task_id r = 3 \<and> status r = js ''blocked''
           \<and> Query_tasks s' = Inr after
           \<and> (\<exists>x \<in> set after. task_id x = 3)
           \<and> (\<forall>x \<in> set after. task_id x = 3 \<longrightarrow> status x = js ''blocked''))"
proof -
  have h: "3 \<in> task_id ` set (rows (init_db 5 5 6))"
    by (simp add: init_db_eq)
  have w: "isWellFormed (js ''blocked'')"
    by (simp add: js_def is_high_surrogate_def is_low_surrogate_def)
  from updateTaskStatus_stores_any_status [OF h, of "js ''blocked''"] obtain s' r after where
    a: "Mutation_updateTaskStatus (init_db 5 5 6) 3 (js ''blocked'') = (s', Inr (Some r))"
       "task_id r = 3" "status r = utf8_text (js ''blocked'')"
       "Query_tasks s' = Inr after"
       "\<exists>x \<in> set after. task_id x = 3"
       "\<forall>x \<in> set after. task_id x = 3 \<longrightarrow> status x = utf8_text (js ''blocked'')"
       "isWellFormed (js ''blocked'') \<longrightarrow> utf8_text (js ''blocked'') = js ''blocked''"
    by (elim exE conjE)
  from a(7) w have e: "utf8_text (js ''blocked'') = js ''blocked''" by (rule mp)
  from a(1-6) have "\<exists>s' r after. Mutation_updateTaskStatus (init_db 5 5 6) 3 (js ''blocked'')
                       = (s', Inr (Some r))
           \<and> task_id r = 3 \<and> status r = js ''blocked''
           \<and> Query_tasks s' = Inr after
           \<and> (\<exists>x \<in> set after. task_id x = 3)
           \<and> (\<forall>x \<in> set after. task_id x = 3 \<longrightarrow> status x = js ''blocked'')"
    unfolding e by (intro exI [of _ s'] exI [of _ r] exI [of _ after] conjI)
  with h w show ?thesis by (intro conjI)
qed

text \<open>
  A status that ends in a high surrogate alone is accepted by the endpoint; the row that
  \<^verbatim>\<open>updateTaskStatus\<close> resolves with, and that \<^verbatim>\<open>tasks\<close> lists afterwards, has
  U+FFFD in its place, so the status stored is not the string given.
\<close>

theorem updateTaskStatus_unpaired_surrogate:
  "snd (Mutation_updateTaskStatus (init_db 0 0 0) 1 [0x78, 0xD83D]) =
     Inr (Some \<lparr>task_id = 1, title = js ''Design new landing page'',
                 status = [0x78, 0xFFFD], created_at = 0\<rparr>)
   \<and> Query_tasks (fst (Mutation_updateTaskStatus (init_db 0 0 0) 1 [0x78, 0xD83D])) =
     Inr [\<lparr>task_id = 1, title = js ''Design new landing page'', status = [0x78, 0xFFFD],
            created_at = 0\<rparr>,
          \<lparr>task_id = 2, title = js ''Review pull requests'', status = js ''in_progress'',
            created_at = 0\<rparr>,
          \<lparr>task_id = 3, title = js ''Deploy to production'', status = js ''done'',
            created_at = 0\<rparr>]"
  by (simp add: updateTaskStatus_eq Query_tasks_eq Let_def init_db_eq update_row_def
      IN_PROGRESS_def DONE_def is_high_surrogate_def is_low_surrogate_def)

section \<open>Deleting a task\<close>

text \<open>
  Claim C4. \<^verbatim>\<open>deleteTask\<close> resolves with \<^verbatim>\<open>true\<close> for every id and every state,
  whether a row has the id or not, and never rejects. Called a second time with the
  same id it resolves with \<^verbatim>\<open>true\<close> again and leaves the table as the first call
  left it.
\<close>

theorem deleteTask_always_true:
  "snd (Mutation_deleteTask s i) = Inr True
   \<and> snd (Mutation_deleteTask (fst (Mutation_deleteTask s i)) i) = Inr True
   \<and> rows (fst (Mutation_deleteTask (fst (Mutation_deleteTask s i)) i))
       = rows (fst (Mutation_deleteTask s i))
   \<and> seq (fst (Mutation_deleteTask (fst (Mutation_deleteTask s i)) i))
       = seq (fst (Mutation_deleteTask s i))"
  by (simp add: deleteTask_eq)

text \<open>
  Claim C6. For every state and id, \<^verbatim>\<open>deleteTask\<close> leaves in the table exactly the
  rows whose id is not the given one, each as it was and in the same order, and the
  rowid counter stays. The list that \<^verbatim>\<open>tasks\<close> returns afterwards is the list it
  returned before without the rows of that id; no row of it has that id.
\<close>

theorem deleteTask_removes_exactly_that_id:
  "rows (fst (Mutation_deleteTask s i)) = filter (\<lambda>r. task_id r \<noteq> i) (rows s)
   \<and> seq (fst (Mutation_deleteTask s i)) = seq s
   \<and> (\<exists>before. Query_tasks s = Inr before
        \<and> Query_tasks (fst (Mutation_deleteTask s i)) = Inr (filter (\<lambda>r. task_id r \<noteq> i) before)
        \<and> i \<notin> task_id ` set (filter (\<lambda>r. task_id r \<noteq> i) before))"
proof -
  have "Query_tasks (fst (Mutation_deleteTask s i))
      = Inr (filter (\<lambda>r. task_id r \<noteq> i) (sort_key (\<lambda>r. - created_at r) (rows s)))"
    by (simp add: Query_tasks_eq deleteTask_eq filter_sort)
  moreover have "i \<notin> task_id ` set (filter (\<lambda>r. task_id r \<noteq> i) (sort_key (\<lambda>r. - created_at r) (rows s)))"
    by auto
  moreover have "rows (fst (Mutation_deleteTask s i)) = filter (\<lambda>r. task_id r \<noteq> i) (rows s)"
    "seq (fst (Mutation_deleteTask s i)) = seq s"
    by (simp_all add: deleteTask_eq)
  ultimately show ?thesis
    using Query_tasks_eq [of s] by blast
qed

theorem deleteTask_removes_exactly_that_id_witness:
  "rows (fst (Mutation_deleteTask (init_db 5 5 6) 1)) =
     [\<lparr>task_id = 2, title = js ''Review pull requests'', status = js ''in_progress'',
        created_at = 5\<rparr>,
      \<lparr>task_id = 3, title = js ''Deploy to production'', status = js ''done'',
        created_at = 6\<rparr>]
   \<and> Query_tasks (fst (Mutation_deleteTask (init_db 5 5 6) 1)) =
     Inr [\<lparr>task_id = 3, title = js ''Deploy to production'', status = js ''done'',
            created_at = 6\<rparr>,
          \<lparr>task_id = 2, title = js ''Review pull requests'', status = js ''in_progress'',
            created_at = 5\<rparr>]"
proof -
  have q: "Query_tasks (init_db 5 5 6) =
       Inr [\<lparr>task_id = 3, title = js ''Deploy to production'', status = DONE, created_at = 6\<rparr>,
            \<lparr>task_id = 1, title = js ''Design new landing page'', status = TODO,
              created_at = 5\<rparr>,
            \<lparr>task_id = 2, title = js ''Review pull requests'', status = IN_PROGRESS,
              created_at = 5\<rparr>]"
    by (simp add: Query_tasks_eq init_db_eq)
  from deleteTask_removes_exactly_that_id [of "init_db 5 5 6" 1] q show ?thesis
    by (simp add: init_db_eq IN_PROGRESS_def DONE_def)
qed

section \<open>Notifications\<close>




section \<open>Row ids\<close>

text \<open>
  Claim C9. In every state that the server reaches from its start by any requests, the
  ids of the rows are pairwise distinct. No mutation changes the id of a row:
  \<^verbatim>\<open>updateTaskStatus\<close> leaves the list of ids as it is, \<^verbatim>\<open>deleteTask\<close> keeps the
  rows of every other id as they are, and \<^verbatim>\<open>createTask\<close> leaves every row that was
  there as it is. Ids grow with creation: the row that a \<^verbatim>\<open>createTask\<close> resolves
  with has an id strictly larger than the id of every row that was in the table at any
  earlier moment, whatever requests came in between and whether or not that row has been
  deleted since.
\<close>

theorem ids_unique_immutable_increasing:
  "distinct (map task_id (rows (serve (init_db ta tb tc) reqs)))
   \<and> map task_id (rows (fst (Mutation_updateTaskStatus s i st))) = map task_id (rows s)
   \<and> rows (fst (Mutation_deleteTask s i)) = filter (\<lambda>r. task_id r \<noteq> i) (rows s)
   \<and> take (length (rows s)) (rows (fst (Mutation_createTask s now ttl))) = rows s
   \<and> (\<forall>x \<in> set (rows (serve (init_db ta tb tc) reqs)).
        \<forall>later s' r.
          Mutation_createTask (serve (serve (init_db ta tb tc) reqs) later) now ttl
            = (s', Inr (Some r))
          \<longrightarrow> task_id x < task_id r)"
proof (intro conjI ballI allI impI)
  show "distinct (map task_id (rows (serve (init_db ta tb tc) reqs)))"
    using table_ok_serve [OF table_ok_init] by (simp add: table_ok_def)
  show "map task_id (rows (fst (Mutation_updateTaskStatus s i st))) = map task_id (rows s)"
    by (simp add: updateTaskStatus_eq Let_def map_id_update [simplified])
  show "rows (fst (Mutation_deleteTask s i)) = filter (\<lambda>r. task_id r \<noteq> i) (rows s)"
    by (simp add: deleteTask_eq)
  show "take (length (rows s)) (rows (fst (Mutation_createTask s now ttl))) = rows s"
    by (cases rule: create_cases [where s = s and now = now and ttl = ttl]) simp_all
next
  fix x later s' r
  define s0 where "s0 = serve (init_db ta tb tc) reqs"
  assume "x \<in> set (rows (serve (init_db ta tb tc) reqs))"
    and run: "Mutation_createTask (serve (serve (init_db ta tb tc) reqs) later) now ttl
                = (s', Inr (Some r))"
  then have x: "x \<in> set (rows s0)" by (simp add: s0_def)
  have "table_ok s0"
    unfolding s0_def by (rule table_ok_serve [OF table_ok_init])
  with x have "task_id x \<le> seq s0" by (simp add: table_ok_def list_all_iff)
  also have "\<dots> \<le> seq (serve s0 later)" by (rule seq_serve)
  also have "\<dots> < task_id r"
    using run unfolding s0_def by (rule created_id_above_seq)
  finally show "task_id x < task_id r" .
qed

theorem ids_unique_immutable_increasing_witness:
  "\<lparr>task_id = 2, title = js ''Review pull requests'', status = js ''in_progress'',
      created_at = 5\<rparr> \<in> set (rows (serve (init_db 5 5 6) [(7, DeleteTask 3)]))
   \<and> Mutation_createTask (serve (serve (init_db 5 5 6) [(7, DeleteTask 3)]) []) 8 (js ''A'') =
       (\<lparr>rows = [\<lparr>task_id = 1, title = js ''Design new landing page'', status = js ''todo'',
                   created_at = 5\<rparr>,
                 \<lparr>task_id = 2, title = js ''Review pull requests'', status = js ''in_progress'',
                   created_at = 5\<rparr>,
                 \<lparr>task_id = 4, title = js ''A'', status = js ''todo'', created_at = 8\<rparr>],
         seq = 4,
         published = [(''TASK_UPDATED'', Deleted 3),
                      (''TASK_UPDATED'', TaskRow (Some \<lparr>task_id = 4, title = js ''A'',
                         status = js ''todo'', created_at = 8\<rparr>))]\<rparr>,
        Inr (Some \<lparr>task_id = 4, title = js ''A'', status = js ''todo'', created_at = 8\<rparr>))
   \<and> task_id \<lparr>task_id = 2, title = js ''Review pull requests'', status = js ''in_progress'',
         created_at = 5\<rparr>
       < task_id \<lparr>task_id = 4, title = js ''A'', status = js ''todo'', created_at = 8\<rparr>
   \<and> distinct (map task_id (rows (serve (init_db 5 5 6) [(7, DeleteTask 3)])))"
proof -
  let ?s0 = "serve (init_db 5 5 6) [(7, DeleteTask 3)]"
  let ?x = "\<lparr>task_id = 2, title = js ''Review pull requests'', status = js ''in_progress'',
      created_at = 5\<rparr>"
  let ?r = "\<lparr>task_id = 4, title = js ''A'', status = js ''todo'', created_at = 8\<rparr>"
  have s0: "?s0 = \<lparr>rows = [\<lparr>task_id = 1, title = js ''Design new landing page'', status = js ''todo'',
                   created_at = 5\<rparr>, ?x], seq = 3, published = [(''TASK_UPDATED'', Deleted 3)]\<rparr>"
    by (simp add: serve_def deleteTask_eq init_db_eq TODO_def IN_PROGRESS_def TASK_UPDATED_def)
  have mem: "?x \<in> set (rows ?s0)"
    by (simp add: s0)
  have run: "Mutation_createTask (serve ?s0 []) 8 (js ''A'') =
       (\<lparr>rows = [\<lparr>task_id = 1, title = js ''Design new landing page'', status = js ''todo'',
                   created_at = 5\<rparr>, ?x, ?r],
         seq = 4,
         published = [(''TASK_UPDATED'', Deleted 3), (''TASK_UPDATED'', TaskRow (Some ?r))]\<rparr>,
        Inr (Some ?r))"
  proof -
    have "serve ?s0 [] = ?s0" by (simp add: serve_def)
    then show ?thesis
      unfolding s0
      by (simp add: Mutation_createTask_def db_run_insert_def db_get_def publish_def
          max_rowid_def MAX_ROWID_def Let_def TODO_def TASK_UPDATED_def)
  qed
  note all = ids_unique_immutable_increasing [of 5 5 6 "[(7, DeleteTask 3)]" _ _ _ 8 "js ''A''"]
  from all have d: "distinct (map task_id (rows ?s0))" by (rule conjunct1)
  from all [THEN conjunct2, THEN conjunct2, THEN conjunct2, THEN conjunct2, rule_format,
      OF mem run]
  have "task_id ?x < task_id ?r" .
  with mem run d show ?thesis by (intro conjI)
qed

section \<open>Listing tasks\<close>

text \<open>
  Claim C1, as the code has it. After any run of \<^verbatim>\<open>createTask\<close> requests, from any
  state whose table has a rowid left for each of them, the table is the old table
  followed by one new row per request, in the order of the requests, with the titles
  given (as UTF-8 text holds them) and the clock readings of the requests as
  \<^verbatim>\<open>created_at\<close>. \<^verbatim>\<open>tasks\<close> then returns all rows of the table, each once, sorted
  on \<^verbatim>\<open>created_at\<close> with the largest first. When the clock readings of the requests
  are strictly increasing, the new rows come in the list in the reverse of the order of
  their creation, the most recent first.
\<close>

theorem tasks_after_creates:
  assumes "max (seq s) (max_rowid (rows s)) + int (length cs) \<le> MAX_ROWID"
  shows "\<exists>created listed.
           rows (serve s (creates cs)) = rows s @ created
         \<and> map title created = map (\<lambda>c. utf8_text (snd c)) cs
         \<and> map created_at created = map fst cs
         \<and> Query_tasks (serve s (creates cs)) = Inr listed
         \<and> mset listed = mset (rows s @ created)
         \<and> sorted_wrt (\<lambda>a b. created_at b \<le> created_at a) listed
         \<and> (sorted_wrt (<) (map fst cs) \<longrightarrow>
                filter (\<lambda>r. r \<in> set created) listed = rev created)"
proof -
  from serve_creates [OF assms] obtain created where
    cr: "rows (serve s (creates cs)) = rows s @ created"
      "map title created = map (\<lambda>c. utf8_text (snd c)) cs"
      "map created_at created = map fst cs"
      "list_all (\<lambda>r. status r = TODO \<and> max_rowid (rows s) < task_id r) created"
    by (elim exE conjE)
  let ?f = "\<lambda>r. - created_at r"
  define listed where "listed = sort_key ?f (rows s @ created)"
  have q: "Query_tasks (serve s (creates cs)) = Inr listed"
    by (simp add: Query_tasks_eq cr(1) listed_def)
  have m: "mset listed = mset (rows s @ created)"
    unfolding listed_def by (rule mset_sort)
  have "sorted (map ?f listed)"
    unfolding listed_def by (rule sorted_sort_key)
  then have srt: "sorted_wrt (\<lambda>a b. created_at b \<le> created_at a) listed"
    by (simp add: sorted_wrt_map)
  have newest: "sorted_wrt (<) (map fst cs) \<longrightarrow>
                  filter (\<lambda>r. r \<in> set created) listed = rev created"
  proof
    assume inc: "sorted_wrt (<) (map fst cs)"
    have old: "x \<notin> set created" if "x \<in> set (rows s)" for x
    proof
      assume "x \<in> set created"
      with cr(4) have "max_rowid (rows s) < task_id x" by (simp add: list_all_iff)
      with max_rowid_ge [OF that] show False by simp
    qed
    then have "filter (\<lambda>r. r \<in> set created) (rows s) = []"
      by (simp add: filter_empty_conv)
    then have "filter (\<lambda>r. r \<in> set created) (rows s @ created) = created"
      by simp
    then have "filter (\<lambda>r. r \<in> set created) listed = sort_key ?f created"
      unfolding listed_def by (simp only: filter_sort)
    moreover have "sorted_wrt (\<lambda>a b. ?f b < ?f a) created"
      using inc by (simp add: cr(3) [symmetric] sorted_wrt_map)
    ultimately show "filter (\<lambda>r. r \<in> set created) listed = rev created"
      by (simp only: sort_key_decreasing)
  qed
  from cr(1-3) q m srt newest show ?thesis
    by (intro exI [of _ created] exI [of _ listed] conjI)
qed

theorem tasks_after_creates_witness:
  "max (seq (init_db 0 0 0)) (max_rowid (rows (init_db 0 0 0)))
     + int (length [(5::int, js ''A''), (6, js ''B'')]) \<le> MAX_ROWID
   \<and> sorted_wrt (<) (map fst [(5::int, js ''A''), (6, js ''B'')])
   \<and> (\<exists>created listed.
         rows (serve (init_db 0 0 0) (creates [(5, js ''A''), (6, js ''B'')]))
           = rows (init_db 0 0 0) @ created
       \<and> map title created = [js ''A'', js ''B'']
       \<and> Query_tasks (serve (init_db 0 0 0) (creates [(5, js ''A''), (6, js ''B'')])) = Inr listed
       \<and> filter (\<lambda>r. r \<in> set created) listed = rev created)
   \<and> Query_tasks (serve (init_db 0 0 0) (creates [(5, js ''A''), (6, js ''B'')])) =
       Inr [\<lparr>task_id = 5, title = js ''B'', status = js ''todo'', created_at = 6\<rparr>,
            \<lparr>task_id = 4, title = js ''A'', status = js ''todo'', created_at = 5\<rparr>,
            \<lparr>task_id = 1, title = js ''Design new landing page'', status = js ''todo'',
              created_at = 0\<rparr>,
            \<lparr>task_id = 2, title = js ''Review pull requests'', status = js ''in_progress'',
              created_at = 0\<rparr>,
            \<lparr>task_id = 3, title = js ''Deploy to production'', status = js ''done'',
              created_at = 0\<rparr>]"
proof -
  let ?cs = "[(5::int, js ''A''), (6, js ''B'')]"
  have h1: "max (seq (init_db 0 0 0)) (max_rowid (rows (init_db 0 0 0)))
     + int (length ?cs) \<le> MAX_ROWID"
    by (simp add: init_db_eq max_rowid_def MAX_ROWID_def)
  have h2: "sorted_wrt (<) (map fst ?cs)"
    by simp
  from tasks_after_creates [OF h1] obtain created listed where
    a: "rows (serve (init_db 0 0 0) (creates ?cs)) = rows (init_db 0 0 0) @ created"
       "map title created = map (\<lambda>c. utf8_text (snd c)) ?cs"
       "Query_tasks (serve (init_db 0 0 0) (creates ?cs)) = Inr listed"
       "sorted_wrt (<) (map fst ?cs) \<longrightarrow> filter (\<lambda>r. r \<in> set created) listed = rev created"
    by (elim exE conjE)
  from a(4) h2 have n: "filter (\<lambda>r. r \<in> set created) listed = rev created"
    by (rule mp)
  from a(2) have t: "map title created = [js ''A'', js ''B'']"
    by simp
  from a(1) t a(3) n have ex: "\<exists>created listed.
         rows (serve (init_db 0 0 0) (creates ?cs)) = rows (init_db 0 0 0) @ created
       \<and> map title created = [js ''A'', js ''B'']
       \<and> Query_tasks (serve (init_db 0 0 0) (creates ?cs)) = Inr listed
       \<and> filter (\<lambda>r. r \<in> set created) listed = rev created"
    by (intro exI [of _ created] exI [of _ listed] conjI)
  have run: "Query_tasks (serve (init_db 0 0 0) (creates ?cs)) =
       Inr [\<lparr>task_id = 5, title = js ''B'', status = js ''todo'', created_at = 6\<rparr>,
            \<lparr>task_id = 4, title = js ''A'', status = js ''todo'', created_at = 5\<rparr>,
            \<lparr>task_id = 1, title = js ''Design new landing page'', status = js ''todo'',
              created_at = 0\<rparr>,
            \<lparr>task_id = 2, title = js ''Review pull requests'', status = js ''in_progress'',
              created_at = 0\<rparr>,
            \<lparr>task_id = 3, title = js ''Deploy to production'', status = js ''done'',
              created_at = 0\<rparr>]"
    by (simp add: Query_tasks_eq serve_def creates_def init_db_eq Mutation_createTask_def
        db_run_insert_def db_get_def publish_def max_rowid_def MAX_ROWID_def Let_def
        TODO_def IN_PROGRESS_def DONE_def)
  from h1 h2 ex run show ?thesis by (intro conjI)
qed

text \<open>
  The clock of the engine counts whole seconds. Two tasks created within the same second
  get the same \<^verbatim>\<open>created_at\<close>, and \<^verbatim>\<open>tasks\<close> lists ``A'' before ``B'', not ``B''
  before ``A''.
\<close>

theorem tasks_same_second:
  "Query_tasks (serve (init_db 0 0 0) (creates [(5, js ''A''), (5, js ''B'')])) =
     Inr [\<lparr>task_id = 4, title = js ''A'', status = js ''todo'', created_at = 5\<rparr>,
          \<lparr>task_id = 5, title = js ''B'', status = js ''todo'', created_at = 5\<rparr>,
          \<lparr>task_id = 1, title = js ''Design new landing page'', status = js ''todo'',
            created_at = 0\<rparr>,
          \<lparr>task_id = 2, title = js ''Review pull requests'', status = js ''in_progress'',
            created_at = 0\<rparr>,
          \<lparr>task_id = 3, title = js ''Deploy to production'', status = js ''done'',
            created_at = 0\<rparr>]"
  by (simp add: Query_tasks_eq serve_def creates_def init_db_eq Mutation_createTask_def
      db_run_insert_def db_get_def publish_def max_rowid_def MAX_ROWID_def Let_def
      TODO_def IN_PROGRESS_def DONE_def)

section \<open>Adding a task from the page\<close>

text \<open>
  Claim C10. For every text of the input field, \<^verbatim>\<open>addTask\<close> trims it first. When
  the trimmed title is empty, nothing is posted and the page, the server and the task
  list are as before. Otherwise \<^verbatim>\<open>createTask\<close> is posted with the trimmed title,
  followed by the \<^verbatim>\<open>tasks\<close> query; the server is in the state that
  \<^verbatim>\<open>createTask\<close> with the trimmed title leaves, the input field is empty and
  \<^verbatim>\<open>tasks\<close> holds the list of that state. In no case is \<^verbatim>\<open>createTask\<close> posted with
  the empty title. The trimmed title is the text without a run of white space at its
  start and one at its end, and, when not empty, neither starts nor ends with white
  space. The service itself does take the empty title and stores a row with it.
\<close>

theorem addTask_trims_title:
  "(\<exists>listed.
      Query_tasks (fst (Mutation_createTask s now (trim (input_value b)))) = Inr listed
      \<and> addTask (b, s) now now' =
          (if trim (input_value b) = [] then (b, s)
           else
             (b\<lparr>input_value := [], tasks := listed,
                sent := sent b @ [CreateTask (trim (input_value b)), Tasks]\<rparr>,
              fst (Mutation_createTask s now (trim (input_value b))))))
   \<and> CreateTask [] \<notin> set (drop (length (sent b)) (sent (fst (addTask (b, s) now now'))))
   \<and> (\<exists>pre post. input_value b = pre @ trim (input_value b) @ post
         \<and> list_all StrWhiteSpaceChar pre \<and> list_all StrWhiteSpaceChar post)
   \<and> (trim (input_value b) \<noteq> [] \<longrightarrow>
         \<not> StrWhiteSpaceChar (hd (trim (input_value b)))
         \<and> \<not> StrWhiteSpaceChar (last (trim (input_value b))))
   \<and> (max (seq s) (max_rowid (rows s)) < MAX_ROWID \<longrightarrow>
         (\<exists>s' r. Mutation_createTask s now [] = (s', Inr (Some r)) \<and> title r = []))"
proof (intro conjI impI)
  show "\<exists>listed.
      Query_tasks (fst (Mutation_createTask s now (trim (input_value b)))) = Inr listed
      \<and> addTask (b, s) now now' =
          (if trim (input_value b) = [] then (b, s)
           else
             (b\<lparr>input_value := [], tasks := listed,
                sent := sent b @ [CreateTask (trim (input_value b)), Tasks]\<rparr>,
              fst (Mutation_createTask s now (trim (input_value b)))))"
    by (simp add: Query_tasks_eq addTask_eq)
  show "CreateTask [] \<notin> set (drop (length (sent b)) (sent (fst (addTask (b, s) now now'))))"
    by (simp add: addTask_eq)
  show "\<exists>pre post. input_value b = pre @ trim (input_value b) @ post
         \<and> list_all StrWhiteSpaceChar pre \<and> list_all StrWhiteSpaceChar post"
    by (rule trim_splits)
next
  assume "trim (input_value b) \<noteq> []"
  then show "\<not> StrWhiteSpaceChar (hd (trim (input_value b)))"
    and "\<not> StrWhiteSpaceChar (last (trim (input_value b)))"
    by (rule trim_ends)+
next
  assume "max (seq s) (max_rowid (rows s)) < MAX_ROWID"
  from createTask_ok [OF this, of now "[]"]
  show "\<exists>s' r. Mutation_createTask s now [] = (s', Inr (Some r)) \<and> title r = []"
    by simp
qed

theorem addTask_trims_title_witness:
  "trim (js ''  Buy milk '') = js ''Buy milk''
   \<and> trim (js ''  Buy milk '') \<noteq> []
   \<and> max (seq (init_db 0 0 0)) (max_rowid (rows (init_db 0 0 0))) < MAX_ROWID
   \<and> addTask (\<lparr>input_value = js ''  Buy milk '', tasks = [], sent = []\<rparr>, init_db 0 0 0) 5 6 =
       (\<lparr>input_value = [],
          tasks = [\<lparr>task_id = 4, title = js ''Buy milk'', status = js ''todo'', created_at = 5\<rparr>,
                   \<lparr>task_id = 1, title = js ''Design new landing page'', status = js ''todo'',
                     created_at = 0\<rparr>,
                   \<lparr>task_id = 2, title = js ''Review pull requests'',
                     status = js ''in_progress'', created_at = 0\<rparr>,
                   \<lparr>task_id = 3, title = js ''Deploy to production'', status = js ''done'',
                     created_at = 0\<rparr>],
          sent = [CreateTask (js ''Buy milk''), Tasks]\<rparr>,
        fst (Mutation_createTask (init_db 0 0 0) 5 (js ''Buy milk'')))
   \<and> \<not> StrWhiteSpaceChar (hd (trim (js ''  Buy milk '')))
   \<and> \<not> StrWhiteSpaceChar (last (trim (js ''  Buy milk '')))
   \<and> (\<exists>s' r. Mutation_createTask (init_db 0 0 0) 5 [] = (s', Inr (Some r)) \<and> title r = [])
   \<and> trim (js ''   '') = []
   \<and> addTask (\<lparr>input_value = js ''   '', tasks = [], sent = []\<rparr>, init_db 0 0 0) 5 6 =
       (\<lparr>input_value = js ''   '', tasks = [], sent = []\<rparr>, init_db 0 0 0)"
proof -
  let ?b = "\<lparr>input_value = js ''  Buy milk '', tasks = [], sent = []\<rparr>"
  let ?blank = "\<lparr>input_value = js ''   '', tasks = [], sent = []\<rparr>"
  let ?s = "init_db 0 0 0"
  have t: "trim (js ''  Buy milk '') = js ''Buy milk''"
    by (simp add: trim_def js_def StrWhiteSpaceChar_def)
  have ne: "trim (js ''  Buy milk '') \<noteq> []"
    unfolding t by (simp add: js_def)
  have ne': "trim (input_value ?b) \<noteq> []"
    using ne by simp
  have h: "max (seq ?s) (max_rowid (rows ?s)) < MAX_ROWID"
    by (simp add: init_db_eq max_rowid_def MAX_ROWID_def)
  have tb: "trim (js ''   '') = []"
    by (simp add: trim_def js_def StrWhiteSpaceChar_def)
  have q: "Query_tasks (fst (Mutation_createTask ?s 5 (js ''Buy milk''))) =
      Inr [\<lparr>task_id = 4, title = js ''Buy milk'', status = js ''todo'', created_at = 5\<rparr>,
           \<lparr>task_id = 1, title = js ''Design new landing page'', status = js ''todo'',
             created_at = 0\<rparr>,
           \<lparr>task_id = 2, title = js ''Review pull requests'',
             status = js ''in_progress'', created_at = 0\<rparr>,
           \<lparr>task_id = 3, title = js ''Deploy to production'', status = js ''done'',
             created_at = 0\<rparr>]"
    by (simp add: Query_tasks_eq init_db_eq Mutation_createTask_def db_run_insert_def db_get_def
        publish_def max_rowid_def MAX_ROWID_def Let_def TODO_def IN_PROGRESS_def DONE_def)
  note a = addTask_trims_title [where s = ?s and now = 5 and b = ?b and now' = 6]
  from a [THEN conjunct1] obtain listed where
    l: "Query_tasks (fst (Mutation_createTask ?s 5 (trim (input_value ?b)))) = Inr listed"
    and eq: "addTask (?b, ?s) 5 6 =
          (if trim (input_value ?b) = [] then (?b, ?s)
           else
             (?b\<lparr>input_value := [], tasks := listed,
                sent := sent ?b @ [CreateTask (trim (input_value ?b)), Tasks]\<rparr>,
              fst (Mutation_createTask ?s 5 (trim (input_value ?b)))))"
    by (elim exE conjE)
  from l q have "listed = [\<lparr>task_id = 4, title = js ''Buy milk'', status = js ''todo'', created_at = 5\<rparr>,
           \<lparr>task_id = 1, title = js ''Design new landing page'', status = js ''todo'',
             created_at = 0\<rparr>,
           \<lparr>task_id = 2, title = js ''Review pull requests'',
             status = js ''in_progress'', created_at = 0\<rparr>,
           \<lparr>task_id = 3, title = js ''Deploy to production'', status = js ''done'',
             created_at = 0\<rparr>]"
    by (simp add: t)
  with eq ne have run: "addTask (?b, ?s) 5 6 =
       (\<lparr>input_value = [],
          tasks = [\<lparr>task_id = 4, title = js ''Buy milk'', status = js ''todo'', created_at = 5\<rparr>,
                   \<lparr>task_id = 1, title = js ''Design new landing page'', status = js ''todo'',
                     created_at = 0\<rparr>,
                   \<lparr>task_id = 2, title = js ''Review pull requests'',
                     status = js ''in_progress'', created_at = 0\<rparr>,
                   \<lparr>task_id = 3, title = js ''Deploy to production'', status = js ''done'',
                     created_at = 0\<rparr>],
          sent = [CreateTask (js ''Buy milk''), Tasks]\<rparr>,
        fst (Mutation_createTask ?s 5 (js ''Buy milk'')))"
    by (simp add: t)
  from a [THEN conjunct2, THEN conjunct2, THEN conjunct2, THEN conjunct1] ne'
  have "\<not> StrWhiteSpaceChar (hd (trim (input_value ?b)))
         \<and> \<not> StrWhiteSpaceChar (last (trim (input_value ?b)))"
    by (rule mp)
  then have ends: "\<not> StrWhiteSpaceChar (hd (trim (js ''  Buy milk '')))"
    "\<not> StrWhiteSpaceChar (last (trim (js ''  Buy milk '')))"
    by simp_all
  from a [THEN conjunct2, THEN conjunct2, THEN conjunct2, THEN conjunct2] h
  have service: "\<exists>s' r. Mutation_createTask ?s 5 [] = (s', Inr (Some r)) \<and> title r = []"
    by (rule mp)
  from addTask_trims_title [where s = ?s and now = 5 and b = ?blank and now' = 6, THEN conjunct1]
  obtain listed' where "addTask (?blank, ?s) 5 6 =
          (if trim (input_value ?blank) = [] then (?blank, ?s)
           else
             (?blank\<lparr>input_value := [], tasks := listed',
                sent := sent ?blank @ [CreateTask (trim (input_value ?blank)), Tasks]\<rparr>,
              fst (Mutation_createTask ?s 5 (trim (input_value ?blank)))))"
    by (elim exE conjE)
  then have blank: "addTask (?blank, ?s) 5 6 = (?blank, ?s)"
    by (simp add: tb)
  from t ne h run ends service tb blank show ?thesis by (intro conjI)
qed

end
